theory Spec2Isabelle
  imports Complex_Main "HOL-Library.Sublist" "HOL-Library.Multiset"
begin

section \<open>Patient-level data splitting (src/src/data\_splitting\_algorithm.py)\<close>

text \<open>
  A shallow embedding of the class \<open>PatientLevelDataSplitter\<close>. Conventions:
  \<^item> Python \<open>str\<close> is \<open>string\<close>; captions and filenames are taken to be ASCII, so
    \<open>str.lower\<close> is the map of the 26 capital letters to small ones and the regular
    expression class \<open>\d\<close> is the ten ASCII digits.
  \<^item> A \<open>dict\<close> / \<open>defaultdict(list)\<close> keeps insertion order; it is an association list
    whose keys are distinct.
  \<^item> Exceptions are values of the type \<open>error\<close>, carried in the left summand.
  \<^item> The ratios are Python floats; they are modelled as exact rationals, so the
    product \<open>n_total * train_ratio\<close> carries no rounding error.
  \<^item> The built-in \<open>hash\<close> (salted per process), the generator behind
    \<open>np.random.seed\<close> and \<open>np.random.shuffle\<close>, and the file system holding the
    captions are not code of this repository: they are parameters of the model.
\<close>

subsection \<open>Data model\<close>

datatype error =
    ValueError string
  | AssertionError string
  | ZeroDivisionError
  | KeyError string

text \<open>One row of the master index. \<open>caption_path\<close> is \<open>None\<close> for a missing (NaN) cell.
  \<open>patient_id\<close> and \<open>split\<close> are the two keys the splitter adds to the row's dict.\<close>

record image_record =
  filename :: string
  source :: string
  image_path :: string
  caption_path :: "string option"
  has_caption :: bool
  patient_id :: "string option"
  split :: "string option"

type_synonym 'v odict = "(string \<times> 'v) list"

text \<open>\<open>d[k].append(v)\<close> on a \<open>defaultdict(list)\<close>: a new key goes to the end.\<close>

fun dd_append :: "'v list odict \<Rightarrow> string \<Rightarrow> 'v \<Rightarrow> 'v list odict" where
  "dd_append [] k v = [(k, [v])]"
| "dd_append ((k', vs) # d) k v =
     (if k' = k then (k', vs @ [v]) # d else (k', vs) # dd_append d k v)"

text \<open>\<open>d[k] = v\<close> on a \<open>dict\<close>: an existing key keeps its position.\<close>

fun dict_set :: "'v odict \<Rightarrow> string \<Rightarrow> 'v \<Rightarrow> 'v odict" where
  "dict_set [] k v = [(k, v)]"
| "dict_set ((k', v') # d) k v =
     (if k' = k then (k', v) # d else (k', v') # dict_set d k v)"

definition keys :: "'v odict \<Rightarrow> string list" where
  "keys d = map fst d"

subsection \<open>Strings\<close>

definition is_digit :: "char \<Rightarrow> bool" where
  "is_digit c = (c \<in> set ''0123456789'')"

definition lower_char :: "char \<Rightarrow> char" where
  "lower_char c =
     (case map_of (zip ''ABCDEFGHIJKLMNOPQRSTUVWXYZ'' ''abcdefghijklmnopqrstuvwxyz'') c of
        Some l \<Rightarrow> l | None \<Rightarrow> c)"

definition lower :: "string \<Rightarrow> string" where
  "lower s = map lower_char s"

definition digit_char :: "nat \<Rightarrow> char" where
  "digit_char d = ''0123456789'' ! (d mod 10)"

fun str_nat :: "nat \<Rightarrow> string" where
  "str_nat n = (if n < 10 then [digit_char n] else str_nat (n div 10) @ [digit_char (n mod 10)])"

text \<open>The decimal rendering an f-string gives an \<open>int\<close>.\<close>

definition str_int :: "int \<Rightarrow> string" where
  "str_int i = (if i < 0 then CHR ''-'' # str_nat (nat (- i)) else str_nat (nat i))"

text \<open>\<open>re.search(lit + r'(\d+)', s)\<close>, returning \<open>group(1)\<close>: the leftmost position where
  \<open>lit\<close> is followed by a digit, and the longest run of digits there.\<close>

definition match_here :: "string \<Rightarrow> string \<Rightarrow> string option" where
  "match_here lit s =
     (if prefix lit s
      then (let ds = takeWhile is_digit (drop (length lit) s)
            in if ds = [] then None else Some ds)
      else None)"

fun re_search_digits :: "string \<Rightarrow> string \<Rightarrow> string option" where
  "re_search_digits lit [] = match_here lit []"
| "re_search_digits lit (c # cs) =
     (case match_here lit (c # cs) of
        Some ds \<Rightarrow> Some ds
      | None \<Rightarrow> re_search_digits lit cs)"

subsection \<open>Patient grouper\<close>

definition extract_patient_id :: "(string \<Rightarrow> int) \<Rightarrow> string \<Rightarrow> string \<Rightarrow> error + string" where
  "extract_patient_id hash fname src =
     (if src = ''CheXpert'' then
        (case re_search_digits ''patient'' fname of
           Some ds \<Rightarrow> Inr (''chexpert_patient'' @ ds)
         | None \<Rightarrow> Inr (''chexpert_unknown_'' @ str_int (hash fname)))
      else if src = ''Radiopaedia'' then
        (case re_search_digits ''radiopaedia_'' fname of
           Some ds \<Rightarrow> Inr (''radiopaedia_'' @ ds)
         | None \<Rightarrow> Inr (''radiopaedia_unknown_'' @ str_int (hash fname)))
      else Inl (ValueError (''Unknown source: '' @ src)))"

text \<open>The loop of \<open>group_by_patient\<close> over the rows, \<open>pd\<close> being \<open>self.patient_data\<close>.\<close>

fun group_rows ::
  "(string \<Rightarrow> int) \<Rightarrow> image_record list odict \<Rightarrow> image_record list
     \<Rightarrow> error + image_record list odict" where
  "group_rows hash pd [] = Inr pd"
| "group_rows hash pd (row # rows) =
     (case extract_patient_id hash (filename row) (source row) of
        Inl e \<Rightarrow> Inl e
      | Inr pid \<Rightarrow> group_rows hash (dd_append pd pid (row\<lparr>patient_id := Some pid\<rparr>)) rows)"

definition group_by_patient ::
  "(string \<Rightarrow> int) \<Rightarrow> image_record list \<Rightarrow> error + image_record list odict" where
  "group_by_patient hash master_df = group_rows hash [] master_df"

subsection \<open>Disease label extractor\<close>

definition disease_keywords :: "(string \<times> string list) list" where
  "disease_keywords =
     [(''pneumonia'', [''pneumonia'', ''consolidation'', ''infiltrate'']),
      (''pleural_effusion'', [''pleural effusion'', ''effusion'']),
      (''cardiomegaly'', [''cardiomegaly'', ''enlarged heart'', ''cardiac enlargement'']),
      (''edema'', [''edema'', ''pulmonary edema'']),
      (''atelectasis'', [''atelectasis'', ''collapse'']),
      (''pneumothorax'', [''pneumothorax'']),
      (''nodule'', [''nodule'', ''mass'', ''lesion'']),
      (''fracture'', [''fracture'', ''rib fracture'']),
      (''normal'', [''no acute'', ''normal'', ''clear lungs'', ''unremarkable''])]"

text \<open>\<open>open(caption_path).read()\<close>: \<open>None\<close> when anything raises (a missing path, a
  missing file, a decode failure).\<close>

definition read_caption :: "(string \<Rightarrow> string option) \<Rightarrow> string option \<Rightarrow> string option" where
  "read_caption fs p = (case p of None \<Rightarrow> None | Some path \<Rightarrow> fs path)"

text \<open>The inner loop with its \<open>break\<close>: some keyword of the list is in the text.\<close>

fun any_keyword :: "string list \<Rightarrow> string \<Rightarrow> bool" where
  "any_keyword [] txt = False"
| "any_keyword (kw # kws) txt = (if sublist kw txt then True else any_keyword kws txt)"

fun scan_keywords :: "(string \<times> string list) list \<Rightarrow> string \<Rightarrow> string list" where
  "scan_keywords [] txt = []"
| "scan_keywords ((disease, kws) # rest) txt =
     (if any_keyword kws txt then disease # scan_keywords rest txt
      else scan_keywords rest txt)"

definition extract_diseases_from_caption ::
  "(string \<Rightarrow> string option) \<Rightarrow> string option \<Rightarrow> string list" where
  "extract_diseases_from_caption fs p =
     (case read_caption fs p of
        None \<Rightarrow> [''unspecified'']
      | Some content \<Rightarrow>
          (let diseases = scan_keywords disease_keywords (lower content)
           in if diseases = [] then [''unspecified''] else diseases))"

text \<open>\<open>list(set(all_diseases))\<close>: the order of the result depends on the string hash;
  \<open>remdups\<close> is one such order, and \<open>key_order_irrelevant\<close> below shows that the
  stratification key does not depend on the choice.\<close>

definition patient_diseases ::
  "(string \<Rightarrow> string option) \<Rightarrow> image_record list \<Rightarrow> string list" where
  "patient_diseases fs images =
     remdups (concat (map (\<lambda>image. extract_diseases_from_caption fs (caption_path image)) images))"

definition extract_patient_disease_labels ::
  "(string \<Rightarrow> string option) \<Rightarrow> image_record list odict \<Rightarrow> string list odict" where
  "extract_patient_disease_labels fs pd = map (\<lambda>(pid, images). (pid, patient_diseases fs images)) pd"

subsection \<open>Stratification key resolver\<close>

definition priority_diseases :: "string list" where
  "priority_diseases =
     [''pneumonia'', ''pneumothorax'', ''pleural_effusion'',
      ''cardiomegaly'', ''edema'', ''atelectasis'',
      ''nodule'', ''fracture'', ''normal'', ''unspecified'']"

fun first_in :: "string list \<Rightarrow> string list \<Rightarrow> string option" where
  "first_in [] diseases = None"
| "first_in (d # ds) diseases = (if d \<in> set diseases then Some d else first_in ds diseases)"

text \<open>The body of \<open>get_stratification_key\<close> once \<open>diseases\<close> has been looked up.\<close>

definition stratification_key_of :: "string list \<Rightarrow> string" where
  "stratification_key_of diseases =
     (case first_in priority_diseases diseases of
        Some d \<Rightarrow> d
      | None \<Rightarrow> (case diseases of [] \<Rightarrow> ''unspecified'' | d # _ \<Rightarrow> d))"

definition get_stratification_key :: "string list odict \<Rightarrow> string \<Rightarrow> string" where
  "get_stratification_key disease_labels pid =
     stratification_key_of
       (case map_of disease_labels pid of None \<Rightarrow> [''unspecified''] | Some ds \<Rightarrow> ds)"

subsection \<open>Python arithmetic and slicing\<close>

text \<open>\<open>int(x)\<close> truncates towards zero.\<close>

definition py_int :: "rat \<Rightarrow> int" where
  "py_int x = (if x < 0 then \<lceil>x\<rceil> else \<lfloor>x\<rfloor>)"

text \<open>A slice bound on a list of length \<open>n\<close>: a negative bound counts from the end, and
  every bound is clamped to \<open>0..n\<close>.\<close>

definition norm_index :: "nat \<Rightarrow> int \<Rightarrow> nat" where
  "norm_index n i = (if i < 0 then nat (max 0 (int n + i)) else min (nat i) n)"

text \<open>\<open>xs[lo:hi]\<close>, a missing bound being \<open>None\<close>.\<close>

definition py_slice :: "'a list \<Rightarrow> int option \<Rightarrow> int option \<Rightarrow> 'a list" where
  "py_slice xs lo hi =
     (let n = length xs;
          a = (case lo of None \<Rightarrow> 0 | Some i \<Rightarrow> norm_index n i);
          b = (case hi of None \<Rightarrow> n | Some j \<Rightarrow> norm_index n j)
      in take (b - a) (drop a xs))"

subsection \<open>Stratified allocator\<close>

text \<open>The dict \<open>{'train': ..., 'val': ..., 'test': ...}\<close> returned by the allocator.\<close>

record patient_split =
  train :: "string list"
  val :: "string list"
  test :: "string list"

text \<open>\<open>np.random.shuffle\<close> on the generator state \<open>'g\<close>: it returns the shuffled list and
  the next state. All that is assumed of it is that it permutes its argument.\<close>

type_synonym 'g shuffle = "'g \<Rightarrow> string list \<Rightarrow> string list \<times> 'g"

definition is_permuting :: "'g shuffle \<Rightarrow> bool" where
  "is_permuting sh = (\<forall>g xs. mset (fst (sh g xs)) = mset xs)"

text \<open>The entry assertion of \<open>stratified_split_patients\<close>.\<close>

definition ratios_ok :: "rat \<Rightarrow> rat \<Rightarrow> rat \<Rightarrow> bool" where
  "ratios_ok train_ratio val_ratio test_ratio =
     (\<bar>train_ratio + val_ratio + test_ratio - 1\<bar> < 1 / 1000)"

text \<open>The loop over \<open>zip(patient_ids, stratification_labels)\<close> filling \<open>disease_groups\<close>.\<close>

fun group_by_label :: "string list odict \<Rightarrow> (string \<times> string) list \<Rightarrow> string list odict" where
  "group_by_label dg [] = dg"
| "group_by_label dg ((pid, label) # rest) = group_by_label (dd_append dg label pid) rest"

text \<open>The cut of one group: \<open>n_total\<close> is its length before the shuffle, \<open>patients\<close>
  the list after it; the pieces are \<open>patients[:n_train]\<close>,
  \<open>patients[n_train:n_train + n_val]\<close> and \<open>patients[n_train + n_val:]\<close>.\<close>

definition cut_group :: "nat \<Rightarrow> string list \<Rightarrow> rat \<Rightarrow> rat \<Rightarrow> patient_split" where
  "cut_group n_total patients train_ratio val_ratio =
     (let n_train = py_int (of_nat n_total * train_ratio);
          n_val = py_int (of_nat n_total * val_ratio)
      in \<lparr>train = py_slice patients None (Some n_train),
          val = py_slice patients (Some n_train) (Some (n_train + n_val)),
          test = py_slice patients (Some (n_train + n_val)) None\<rparr>)"

text \<open>The loop over \<open>disease_groups.items()\<close>, threading the generator.\<close>

fun split_groups ::
  "'g shuffle \<Rightarrow> rat \<Rightarrow> rat \<Rightarrow> 'g \<Rightarrow> patient_split \<Rightarrow> string list odict
     \<Rightarrow> patient_split \<times> 'g" where
  "split_groups sh tr vr g acc [] = (acc, g)"
| "split_groups sh tr vr g acc ((disease, patients) # rest) =
     (case sh g patients of
        (shuffled, g') \<Rightarrow>
          (let c = cut_group (length patients) shuffled tr vr
           in split_groups sh tr vr g'
                \<lparr>train = train acc @ train c, val = val acc @ val c, test = test acc @ test c\<rparr>
                rest))"

definition stratified_split_patients ::
  "'g shuffle \<Rightarrow> string list odict \<Rightarrow> 'g \<Rightarrow> string list \<Rightarrow> rat \<Rightarrow> rat \<Rightarrow> rat
     \<Rightarrow> error + patient_split \<times> 'g" where
  "stratified_split_patients sh disease_labels g patient_ids train_ratio val_ratio test_ratio =
     (if \<not> ratios_ok train_ratio val_ratio test_ratio
      then Inl (AssertionError ''Ratios must sum to 1.0'')
      else
        (let stratification_labels = map (get_stratification_key disease_labels) patient_ids;
             disease_groups = group_by_label [] (zip patient_ids stratification_labels)
         in Inr (split_groups sh train_ratio val_ratio g
                   \<lparr>train = [], val = [], test = []\<rparr> disease_groups)))"

subsection \<open>Split orchestrator\<close>

text \<open>\<open>self.splits\<close> after \<open>create_splits\<close>.\<close>

record split_tables =
  train_df :: "image_record list"
  val_df :: "image_record list"
  test_df :: "image_record list"
  train_patients :: "string list"
  val_patients :: "string list"
  test_patients :: "string list"

text \<open>The inner loop of \<open>patients_to_dataframe\<close> for one patient: every image dict of
  \<open>self.patient_data[patient_id]\<close> gets \<open>image['split'] = split_name\<close> in place, so the
  stored group changes too. A missing key of the \<open>defaultdict\<close> is created empty.\<close>

definition stamp_patient ::
  "image_record list odict \<Rightarrow> string \<Rightarrow> string \<Rightarrow> image_record list \<times> image_record list odict" where
  "stamp_patient pd pid split_name =
     (case map_of pd pid of
        None \<Rightarrow> ([], pd @ [(pid, [])])
      | Some images \<Rightarrow>
          (let stamped = map (\<lambda>image. image\<lparr>split := Some split_name\<rparr>) images
           in (stamped, map (\<lambda>(k, v). if k = pid then (k, stamped) else (k, v)) pd)))"

text \<open>\<open>patients_to_dataframe\<close>: the rows of the new frame (copies of the stamped dicts)
  and \<open>self.patient_data\<close> afterwards.\<close>

fun patients_to_dataframe ::
  "image_record list odict \<Rightarrow> string list \<Rightarrow> string
     \<Rightarrow> image_record list \<times> image_record list odict" where
  "patients_to_dataframe pd [] split_name = ([], pd)"
| "patients_to_dataframe pd (pid # rest) split_name =
     (case stamp_patient pd pid split_name of
        (records, pd') \<Rightarrow>
          (case patients_to_dataframe pd' rest split_name of
             (records', pd'') \<Rightarrow> (records @ records', pd'')))"

text \<open>\<open>create_splits\<close> returns \<open>self.splits\<close>, \<open>self.patient_data\<close> as the expansion left it,
  and the generator.\<close>

definition create_splits ::
  "'g shuffle \<Rightarrow> string list odict \<Rightarrow> 'g \<Rightarrow> image_record list odict \<Rightarrow> rat \<Rightarrow> rat \<Rightarrow> rat
     \<Rightarrow> error + split_tables \<times> image_record list odict \<times> 'g" where
  "create_splits sh disease_labels g pd train_ratio val_ratio test_ratio =
     (let chexpert_patients = filter (prefix ''chexpert_'') (keys pd);
          radiopaedia_patients = filter (prefix ''radiopaedia_'') (keys pd)
      in case stratified_split_patients sh disease_labels g chexpert_patients
                train_ratio val_ratio test_ratio of
           Inl e \<Rightarrow> Inl e
         | Inr (chexpert_splits, g1) \<Rightarrow>
      (case stratified_split_patients sh disease_labels g1 radiopaedia_patients
                train_ratio val_ratio test_ratio of
           Inl e \<Rightarrow> Inl e
         | Inr (radiopaedia_splits, g2) \<Rightarrow>
      (let trainp = train chexpert_splits @ train radiopaedia_splits;
           valp = val chexpert_splits @ val radiopaedia_splits;
           testp = test chexpert_splits @ test radiopaedia_splits
       in case patients_to_dataframe pd trainp ''train'' of (traindf, pd1) \<Rightarrow>
         (case patients_to_dataframe pd1 valp ''val'' of (valdf, pd2) \<Rightarrow>
         (case patients_to_dataframe pd2 testp ''test'' of (testdf, pd3) \<Rightarrow>
            Inr (\<lparr>train_df = traindf, val_df = valdf, test_df = testdf,
                  train_patients = trainp, val_patients = valp, test_patients = testp\<rparr>,
                 pd3, g2))))))"

subsection \<open>Split validator\<close>

record validation_results =
  no_patient_overlap :: bool
  ratio_validation :: bool
  train_has_both_sources :: bool
  val_has_both_sources :: bool
  test_has_both_sources :: bool
  all_patients_assigned :: bool
  overall_valid :: bool

text \<open>\<open>df['source'].unique()\<close>. A frame built from an empty list of records has no
  columns, and the lookup raises \<open>KeyError\<close>.\<close>

definition df_source_unique :: "image_record list \<Rightarrow> error + string list" where
  "df_source_unique df =
     (if df = [] then Inl (KeyError ''source'') else Inr (remdups (map source df)))"

text \<open>\<open>a.intersection(b)\<close> on the Python sets, as the list of common elements.\<close>

definition intersection :: "string list \<Rightarrow> string list \<Rightarrow> string list" where
  "intersection a b = filter (\<lambda>x. x \<in> set b) a"

definition validate_splits ::
  "image_record list odict \<Rightarrow> split_tables \<Rightarrow> error + validation_results" where
  "validate_splits pd sp =
     (let trainp = remdups (train_patients sp);
          valp = remdups (val_patients sp);
          testp = remdups (test_patients sp);
          no_overlap =
            (length (intersection trainp valp) = 0 \<and>
             length (intersection trainp testp) = 0 \<and>
             length (intersection valp testp) = 0);
          total_patients = length trainp + length valp + length testp
      in if total_patients = 0 then Inl ZeroDivisionError
         else
           (let train_ratio = (of_nat (length trainp) / of_nat total_patients :: rat);
                val_ratio = (of_nat (length valp) / of_nat total_patients :: rat);
                test_ratio = (of_nat (length testp) / of_nat total_patients :: rat);
                ratio_ok =
                  (\<bar>train_ratio - 80 / 100\<bar> < 5 / 100 \<and>
                   \<bar>val_ratio - 10 / 100\<bar> < 5 / 100 \<and>
                   \<bar>test_ratio - 10 / 100\<bar> < 5 / 100)
            in case df_source_unique (train_df sp) of
                 Inl e \<Rightarrow> Inl e
               | Inr train_sources \<Rightarrow>
            (case df_source_unique (val_df sp) of
                 Inl e \<Rightarrow> Inl e
               | Inr val_sources \<Rightarrow>
            (case df_source_unique (test_df sp) of
                 Inl e \<Rightarrow> Inl e
               | Inr test_sources \<Rightarrow>
            (let train_both = (length train_sources = 2);
                 val_both = (length val_sources = 2);
                 test_both = (length test_sources = 2);
                 assigned = (set (keys pd) = set trainp \<union> set valp \<union> set testp)
             in Inr \<lparr>no_patient_overlap = no_overlap,
                     ratio_validation = ratio_ok,
                     train_has_both_sources = train_both,
                     val_has_both_sources = val_both,
                     test_has_both_sources = test_both,
                     all_patients_assigned = assigned,
                     overall_valid =
                       (no_overlap \<and> ratio_ok \<and> train_both \<and> val_both \<and> test_both
                        \<and> assigned)\<rparr>)))))"

subsection \<open>Persistence and the pipeline\<close>

text \<open>\<open>Counter.update\<close> with a list of tags.\<close>

fun counter_add :: "nat odict \<Rightarrow> string \<Rightarrow> nat odict" where
  "counter_add [] k = [(k, 1)]"
| "counter_add ((k', c) # d) k =
     (if k' = k then (k', Suc c) # d else (k', c) # counter_add d k)"

definition counter_update :: "nat odict \<Rightarrow> string list \<Rightarrow> nat odict" where
  "counter_update cnt tags = foldl counter_add cnt tags"

text \<open>\<open>get_disease_distribution\<close>; \<open>df['patient_id']\<close> raises on a frame without columns.
  Every row of a frame made by \<open>create_splits\<close> carries its \<open>patient_id\<close>.\<close>

definition get_disease_distribution ::
  "string list odict \<Rightarrow> image_record list \<Rightarrow> error + rat odict" where
  "get_disease_distribution disease_labels df =
     (if df = [] then Inl (KeyError ''patient_id'')
      else
        (let patient_ids = remdups (map patient_id df);
             disease_counts =
               foldl (\<lambda>cnt pid.
                        counter_update cnt
                          (case pid of
                             None \<Rightarrow> []
                           | Some p \<Rightarrow> (case map_of disease_labels p of None \<Rightarrow> [] | Some ds \<Rightarrow> ds)))
                     [] patient_ids;
             total = length patient_ids
         in Inr (map (\<lambda>(disease, count). (disease, of_nat count / of_nat total)) disease_counts)))"

text \<open>The report of one split in \<open>split_metadata.json\<close>. The \<open>generated_at\<close> timestamp
  and the \<open>source_distribution\<close> (a \<open>value_counts\<close> of the library) are left out.\<close>

record split_summary =
  n_patients :: nat
  n_images :: nat
  disease_distribution :: "rat odict"

record metadata =
  random_seed :: int
  train_summary :: split_summary
  val_summary :: split_summary
  test_summary :: split_summary
  validation_checks :: validation_results

text \<open>The files of the output directory; \<open>None\<close> is a file that was not written.\<close>

record output_dir =
  train_index :: "image_record list option"
  val_index :: "image_record list option"
  test_index :: "image_record list option"
  split_metadata :: "metadata option"
  patient_mapping :: "string odict option"

definition no_files :: output_dir where
  "no_files = \<lparr>train_index = None, val_index = None, test_index = None,
                split_metadata = None, patient_mapping = None\<rparr>"

text \<open>The loop filling \<open>patient_mapping\<close> for one split.\<close>

definition map_patients :: "string odict \<Rightarrow> string list \<Rightarrow> string \<Rightarrow> string odict" where
  "map_patients m pids split_name = foldl (\<lambda>m pid. dict_set m pid split_name) m pids"

definition summary ::
  "string list odict \<Rightarrow> string list \<Rightarrow> image_record list \<Rightarrow> error + split_summary" where
  "summary disease_labels pids df =
     (case get_disease_distribution disease_labels df of
        Inl e \<Rightarrow> Inl e
      | Inr distr \<Rightarrow>
          Inr \<lparr>n_patients = length pids, n_images = length df, disease_distribution = distr\<rparr>)"

text \<open>\<open>save_splits\<close> writes the three tables first, then builds the metadata (which
  runs the validator again), then writes the two JSON files. It returns the error
  raised, if any, and the directory as it is left.\<close>

definition save_splits ::
  "string list odict \<Rightarrow> image_record list odict \<Rightarrow> split_tables \<Rightarrow> int \<Rightarrow> output_dir
     \<Rightarrow> error option \<times> output_dir" where
  "save_splits disease_labels pd sp seed out =
     (let out1 = out\<lparr>train_index := Some (train_df sp), val_index := Some (val_df sp),
                     test_index := Some (test_df sp)\<rparr>
      in case summary disease_labels (train_patients sp) (train_df sp) of
           Inl e \<Rightarrow> (Some e, out1)
         | Inr trs \<Rightarrow>
      (case summary disease_labels (val_patients sp) (val_df sp) of
           Inl e \<Rightarrow> (Some e, out1)
         | Inr vs \<Rightarrow>
      (case summary disease_labels (test_patients sp) (test_df sp) of
           Inl e \<Rightarrow> (Some e, out1)
         | Inr tes \<Rightarrow>
      (case validate_splits pd sp of
           Inl e \<Rightarrow> (Some e, out1)
         | Inr checks \<Rightarrow>
      (let md = \<lparr>random_seed = seed, train_summary = trs, val_summary = vs,
                 test_summary = tes, validation_checks = checks\<rparr>;
           m1 = map_patients [] (train_patients sp) ''train'';
           m2 = map_patients m1 (val_patients sp) ''val'';
           m3 = map_patients m2 (test_patients sp) ''test''
       in (None, out1\<lparr>split_metadata := Some md, patient_mapping := Some m3\<rparr>))))))"

text \<open>The master index file as \<open>pd.read_csv\<close> returns it; the file is taken to be
  there and readable.\<close>

record csv_table =
  columns :: "string list"
  csv_rows :: "image_record list"

definition required_columns :: "string list" where
  "required_columns = [''filename'', ''source'', ''image_path'', ''caption_path'', ''has_caption'']"

definition load_master_index :: "csv_table \<Rightarrow> error + image_record list" where
  "load_master_index csv =
     (if filter (\<lambda>c. c \<notin> set (columns csv)) required_columns \<noteq> []
      then Inl (ValueError ''Missing required columns'')
      else Inr (csv_rows csv))"

text \<open>\<open>np.random.seed\<close> in \<open>__init__\<close>: the library accepts seeds in \<open>0 .. 2^32 - 1\<close>.\<close>

definition init_rng :: "(int \<Rightarrow> 'g) \<Rightarrow> int \<Rightarrow> error + 'g" where
  "init_rng seed_rng seed =
     (if 0 \<le> seed \<and> seed < 2 ^ 32 then Inr (seed_rng seed)
      else Inl (ValueError ''Seed must be between 0 and 2**32 - 1''))"

text \<open>The constructor followed by \<open>run_full_pipeline\<close>. \<open>create_splits\<close> is called
  without arguments, hence with the defaults 0.8, 0.1, 0.1.\<close>

definition run_full_pipeline ::
  "'g shuffle \<Rightarrow> (int \<Rightarrow> 'g) \<Rightarrow> (string \<Rightarrow> int) \<Rightarrow> (string \<Rightarrow> string option) \<Rightarrow> csv_table
     \<Rightarrow> int \<Rightarrow> output_dir \<Rightarrow> error option \<times> output_dir" where
  "run_full_pipeline sh seed_rng hash fs csv seed out =
     (case init_rng seed_rng seed of
        Inl e \<Rightarrow> (Some e, out)
      | Inr g \<Rightarrow>
     (case load_master_index csv of
        Inl e \<Rightarrow> (Some e, out)
      | Inr master_df \<Rightarrow>
     (case group_by_patient hash master_df of
        Inl e \<Rightarrow> (Some e, out)
      | Inr pd \<Rightarrow>
     (let disease_labels = extract_patient_disease_labels fs pd
      in case create_splits sh disease_labels g pd (8 / 10) (1 / 10) (1 / 10) of
           Inl e \<Rightarrow> (Some e, out)
         | Inr (sp, pd', g') \<Rightarrow>
        (case validate_splits pd' sp of
           Inl e \<Rightarrow> (Some e, out)
         | Inr checks \<Rightarrow> save_splits disease_labels pd' sp seed out)))))"

text \<open>The parsed command line, and \<open>main\<close>: the three ratios are parsed and never
  passed on.\<close>

record cli_args =
  arg_master_index :: string
  arg_output_dir :: string
  arg_train_ratio :: rat
  arg_val_ratio :: rat
  arg_test_ratio :: rat
  arg_random_seed :: int

definition main ::
  "'g shuffle \<Rightarrow> (int \<Rightarrow> 'g) \<Rightarrow> (string \<Rightarrow> int) \<Rightarrow> (string \<Rightarrow> string option)
     \<Rightarrow> (string \<Rightarrow> csv_table) \<Rightarrow> cli_args \<Rightarrow> output_dir \<Rightarrow> error option \<times> output_dir" where
  "main sh seed_rng hash fs read_csv args out =
     run_full_pipeline sh seed_rng hash fs (read_csv (arg_master_index args))
       (arg_random_seed args) out"

subsection \<open>A concrete environment\<close>

text \<open>A permuting shuffle on a counter as generator state, used to run the model: the
  \<open>g\<close>-th call rotates its list by \<open>g\<close> places.\<close>

definition rotate_shuffle :: "nat shuffle" where
  "rotate_shuffle g xs = (rotate g xs, Suc g)"

definition seed_counter :: "int \<Rightarrow> nat" where
  "seed_counter seed = nat seed"

definition mk_row :: "string \<Rightarrow> string \<Rightarrow> image_record" where
  "mk_row fname src =
     \<lparr>filename = fname, source = src, image_path = ''images/'' @ fname,
      caption_path = None, has_caption = False, patient_id = None, split = None\<rparr>"

definition ten_chexpert :: "image_record list" where
  "ten_chexpert =
     map (\<lambda>f. mk_row f ''CheXpert'')
       [''patient0.jpg'', ''patient1.jpg'', ''patient2.jpg'', ''patient3.jpg'', ''patient4.jpg'',
        ''patient5.jpg'', ''patient6.jpg'', ''patient7.jpg'', ''patient8.jpg'', ''scan.jpg'']"

definition ten_chexpert_csv :: csv_table where
  "ten_chexpert_csv =
     \<lparr>columns = [''filename'', ''source'', ''image_path'', ''caption_path'', ''has_caption''],
      csv_rows = ten_chexpert\<rparr>"

text \<open>An inventory with both sources, a patient with two images and a filename
  that matches no rule.\<close>

definition two_sources :: "image_record list" where
  "two_sources =
     [mk_row ''patient00012_view1.jpg'' ''CheXpert'',
      mk_row ''radiopaedia_5_frontal.png'' ''Radiopaedia'',
      mk_row ''patient00012_view2.jpg'' ''CheXpert'',
      mk_row ''case.png'' ''Radiopaedia'']"

definition eight_mixed :: "image_record list" where
  "eight_mixed =
     map (\<lambda>f. mk_row f ''CheXpert'')
       [''patient1.jpg'', ''patient2.jpg'', ''patient3.jpg'', ''patient4.jpg'']
     @ map (\<lambda>f. mk_row f ''Radiopaedia'')
       [''radiopaedia_1.png'', ''radiopaedia_2.png'', ''radiopaedia_3.png'', ''radiopaedia_4.png'']"

text \<open>The state after \<open>create_splits(0.5, 0.25, 0.25)\<close> on \<open>eight_mixed\<close>, and after
  \<open>create_splits()\<close> on \<open>ten_chexpert\<close>, no caption being readable.\<close>

definition eight_split :: "split_tables \<times> image_record list odict \<times> nat" where
  "eight_split =
     projr (create_splits rotate_shuffle
              (extract_patient_disease_labels (\<lambda>p. None)
                 (projr (group_by_patient (\<lambda>f. 0) eight_mixed)))
              0 (projr (group_by_patient (\<lambda>f. 0) eight_mixed)) (1 / 2) (1 / 4) (1 / 4))"

definition ten_split :: "split_tables \<times> image_record list odict \<times> nat" where
  "ten_split =
     projr (create_splits rotate_shuffle
              (extract_patient_disease_labels (\<lambda>p. None)
                 (projr (group_by_patient (\<lambda>f. 7) ten_chexpert)))
              0 (projr (group_by_patient (\<lambda>f. 7) ten_chexpert)) (8 / 10) (1 / 10) (1 / 10))"

subsection \<open>Notions used in the statements\<close>

text \<open>The patient groups with the \<open>split\<close> key of every stored record blanked: what is
  left of them when the stamp is disregarded.\<close>

definition unstamped :: "image_record list odict \<Rightarrow> image_record list odict" where
  "unstamped pd = map (\<lambda>(k, images). (k, map (\<lambda>image. image\<lparr>split := None\<rparr>) images)) pd"


section \<open>Properties\<close>

subsection \<open>Disease label extractor\<close>

lemma any_keyword_iff: "any_keyword kws txt \<longleftrightarrow> (\<exists>kw\<in>set kws. sublist kw txt)"
  by (induction kws) auto

lemma set_scan_keywords:
  "set (scan_keywords tax txt) =
     {tag. \<exists>kws. (tag, kws) \<in> set tax \<and> (\<exists>kw\<in>set kws. sublist kw txt)}"
proof (induction tax)
  case Nil
  then show ?case by simp
next
  case (Cons entry rest)
  obtain disease kws where e: "entry = (disease, kws)" by (cases entry)
  show ?case
  proof (cases "any_keyword kws txt")
    case True
    then have "\<exists>kw\<in>set kws. sublist kw txt" by (simp add: any_keyword_iff)
    with True Cons.IH show ?thesis unfolding e by auto
  next
    case False
    then have "\<not> (\<exists>kw\<in>set kws. sublist kw txt)" by (simp add: any_keyword_iff)
    with False Cons.IH show ?thesis unfolding e by auto
  qed
qed

lemma scan_keywords_subset: "set (scan_keywords tax txt) \<subseteq> set (map fst tax)"
  by (induction tax) (auto split: if_splits)

lemma distinct_scan_keywords: "distinct (map fst tax) \<Longrightarrow> distinct (scan_keywords tax txt)"
proof (induction tax)
  case Nil
  then show ?case by simp
next
  case (Cons entry rest)
  obtain disease kws where e: "entry = (disease, kws)" by (cases entry)
  have "disease \<notin> set (scan_keywords rest t)" for t
    using Cons.prems scan_keywords_subset [of rest t] by (auto simp: e)
  with Cons show ?case by (simp add: e)
qed

lemma extract_diseases_subset_priority:
  "set (extract_diseases_from_caption fs p) \<subseteq> set priority_diseases"
proof -
  have "set (map fst disease_keywords) \<subseteq> set priority_diseases"
    by (simp add: disease_keywords_def priority_diseases_def)
  then have "set (scan_keywords disease_keywords t) \<subseteq> set priority_diseases" for t
    using scan_keywords_subset [of disease_keywords t] by blast
  moreover have "''unspecified'' \<in> set priority_diseases"
    by (simp add: priority_diseases_def)
  ultimately show ?thesis
    by (auto simp: extract_diseases_from_caption_def Let_def split: option.splits)
qed

text \<open>
  Claim C4. For every caption input, \<open>extract_diseases_from_caption\<close> returns exactly the
  taxonomy tags one of whose keyword phrases is a substring of the lower-cased text, the
  single sentinel \<open>unspecified\<close> when no tag matches, and the sentinel list when the
  caption cannot be read; the result is a list without repetition, and no error value
  is part of the function's result type: nothing is raised past the caller.
\<close>

theorem extract_diseases_from_caption_spec:
  "(read_caption fs p = None \<longrightarrow> extract_diseases_from_caption fs p = [''unspecified''])
   \<and> (\<forall>content. read_caption fs p = Some content \<longrightarrow>
        (let matching = {tag. \<exists>kws. (tag, kws) \<in> set disease_keywords
                                \<and> (\<exists>kw\<in>set kws. sublist kw (lower content))}
         in set (extract_diseases_from_caption fs p) =
              (if matching = {} then {''unspecified''} else matching)))
   \<and> distinct (extract_diseases_from_caption fs p)"
proof -
  have d: "distinct (map fst disease_keywords)"
    by (simp add: disease_keywords_def)
  have a: "extract_diseases_from_caption fs p = [''unspecified'']" if "read_caption fs p = None"
    using that by (simp add: extract_diseases_from_caption_def)
  have b: "set (extract_diseases_from_caption fs p) =
             (if set (scan_keywords disease_keywords (lower content)) = {} then {''unspecified''}
              else set (scan_keywords disease_keywords (lower content)))"
    if "read_caption fs p = Some content" for content
    using that by (simp add: extract_diseases_from_caption_def Let_def)
  have c: "distinct (extract_diseases_from_caption fs p)"
    using distinct_scan_keywords [OF d]
    by (simp add: extract_diseases_from_caption_def Let_def split: option.splits)
  from a b c show ?thesis
    unfolding Let_def set_scan_keywords [symmetric] by blast
qed

theorem extract_diseases_from_caption_witness:
  "read_caption (\<lambda>path. Some ''No Acute findings. Small Effusion'') (Some ''captions/a.txt'')
      = Some ''No Acute findings. Small Effusion''
   \<and> set (extract_diseases_from_caption (\<lambda>path. Some ''No Acute findings. Small Effusion'')
        (Some ''captions/a.txt'')) = {''pleural_effusion'', ''normal''}
   \<and> read_caption (\<lambda>path. Some ''No Acute findings. Small Effusion'') None = None
   \<and> extract_diseases_from_caption (\<lambda>path. Some ''No Acute findings. Small Effusion'') None
        = [''unspecified'']"
proof -
  let ?fs = "\<lambda>path::string. Some ''No Acute findings. Small Effusion''"
  have r1: "read_caption ?fs (Some ''captions/a.txt'') = Some ''No Acute findings. Small Effusion''"
    by (simp add: read_caption_def)
  have r2: "read_caption ?fs None = None"
    by (simp add: read_caption_def)
  have e1: "extract_diseases_from_caption ?fs (Some ''captions/a.txt'')
              = [''pleural_effusion'', ''normal'']"
    by code_simp
  from extract_diseases_from_caption_spec [of ?fs None] r2
  have "extract_diseases_from_caption ?fs None = [''unspecified'']"
    by blast
  with r1 r2 e1 show ?thesis by simp
qed

subsection \<open>Stratification key resolver\<close>

lemma first_in_Some:
  "first_in ps ds = Some d \<Longrightarrow>
     \<exists>i<length ps. d = ps ! i \<and> d \<in> set ds \<and> (\<forall>j<i. ps ! j \<notin> set ds)"
proof (induction ps)
  case Nil
  then show ?case by simp
next
  case (Cons p ps)
  show ?case
  proof (cases "p \<in> set ds")
    case True
    with Cons.prems have "d = p" by simp
    with True show ?thesis by (intro exI [of _ 0]) simp
  next
    case False
    with Cons obtain i where i: "i < length ps" "d = ps ! i" "d \<in> set ds" "\<forall>j<i. ps ! j \<notin> set ds"
      by auto
    have "\<forall>j<Suc i. (p # ps) ! j \<notin> set ds"
      using False i(4) by (auto simp: less_Suc_eq_0_disj)
    with i show ?thesis by (intro exI [of _ "Suc i"]) simp
  qed
qed

lemma first_in_None: "first_in ps ds = None \<longleftrightarrow> set ps \<inter> set ds = {}"
  by (induction ps) auto

lemma first_in_cong: "set ds = set ds' \<Longrightarrow> first_in ps ds = first_in ps ds'"
  by (induction ps) auto

lemma key_order_irrelevant:
  assumes "set ds = set ds'" "set ds \<subseteq> set priority_diseases"
  shows "stratification_key_of ds = stratification_key_of ds'"
proof (cases "ds = []")
  case True
  with assms show ?thesis by simp
next
  case False
  then obtain d where "d \<in> set ds" by (cases ds) auto
  with assms have "first_in priority_diseases ds \<noteq> None"
    by (auto simp: first_in_None)
  then show ?thesis
    using first_in_cong [OF assms(1), of priority_diseases]
    by (auto simp: stratification_key_of_def)
qed

lemma get_stratification_key_absent:
  "map_of disease_labels pid = None \<Longrightarrow> get_stratification_key disease_labels pid = ''unspecified''"
  by (simp add: get_stratification_key_def stratification_key_of_def priority_diseases_def)

text \<open>
  Claim C5. For a patient whose label set is drawn from the taxonomy (which every set made by
  the extractor is, \<open>extract_diseases_subset_priority\<close>), \<open>get_stratification_key\<close> returns
  the first tag of the fixed priority list that is in the set; on the empty set it returns
  \<open>unspecified\<close>; the key depends on the set of labels only, not on their order or on
  anything else; the priority list has ten distinct entries, \<open>normal\<close> next-to-last and
  \<open>unspecified\<close> last.
\<close>

theorem get_stratification_key_spec:
  assumes "map_of disease_labels pid = Some ds" and "set ds \<subseteq> set priority_diseases"
  shows "(ds \<noteq> [] \<longrightarrow>
            (\<exists>i<length priority_diseases.
               get_stratification_key disease_labels pid = priority_diseases ! i
               \<and> priority_diseases ! i \<in> set ds
               \<and> (\<forall>j<i. priority_diseases ! j \<notin> set ds)))
       \<and> (ds = [] \<longrightarrow> get_stratification_key disease_labels pid = ''unspecified'')
       \<and> (\<forall>labels' ds'. map_of labels' pid = Some ds' \<and> set ds' = set ds \<longrightarrow>
             get_stratification_key labels' pid = get_stratification_key disease_labels pid)
       \<and> distinct priority_diseases
       \<and> length priority_diseases = 10
       \<and> priority_diseases ! 8 = ''normal''
       \<and> priority_diseases ! 9 = ''unspecified''"
proof -
  have k: "get_stratification_key disease_labels pid = stratification_key_of ds"
    using assms(1) by (simp add: get_stratification_key_def)
  have a: "ds \<noteq> [] \<longrightarrow>
            (\<exists>i<length priority_diseases.
               get_stratification_key disease_labels pid = priority_diseases ! i
               \<and> priority_diseases ! i \<in> set ds
               \<and> (\<forall>j<i. priority_diseases ! j \<notin> set ds))"
  proof
    assume "ds \<noteq> []"
    then obtain d where "d \<in> set ds" by (cases ds) auto
    with assms(2) have "first_in priority_diseases ds \<noteq> None"
      by (auto simp: first_in_None)
    then obtain d' where d': "first_in priority_diseases ds = Some d'" by auto
    then have "stratification_key_of ds = d'" by (simp add: stratification_key_of_def)
    with first_in_Some [OF d'] k
    show "\<exists>i<length priority_diseases.
               get_stratification_key disease_labels pid = priority_diseases ! i
               \<and> priority_diseases ! i \<in> set ds
               \<and> (\<forall>j<i. priority_diseases ! j \<notin> set ds)"
      by auto
  qed
  have b: "ds = [] \<longrightarrow> get_stratification_key disease_labels pid = ''unspecified''"
    unfolding k by (simp add: stratification_key_of_def priority_diseases_def)
  have c: "\<forall>labels' ds'. map_of labels' pid = Some ds' \<and> set ds' = set ds \<longrightarrow>
             get_stratification_key labels' pid = get_stratification_key disease_labels pid"
  proof (intro allI impI)
    fix labels' ds'
    assume h: "map_of labels' pid = Some ds' \<and> set ds' = set ds"
    then have "stratification_key_of ds = stratification_key_of ds'"
      using key_order_irrelevant [of ds ds'] assms(2) by simp
    with h show "get_stratification_key labels' pid = get_stratification_key disease_labels pid"
      unfolding k by (simp add: get_stratification_key_def)
  qed
  have d1: "distinct priority_diseases" by (simp add: priority_diseases_def)
  have d2: "length priority_diseases = 10" by (simp add: priority_diseases_def)
  have d3: "priority_diseases ! 8 = ''normal''" by (simp add: priority_diseases_def)
  have d4: "priority_diseases ! 9 = ''unspecified''" by (simp add: priority_diseases_def)
  show ?thesis
    by (intro conjI) (fact a, fact b, fact c, fact d1, fact d2, fact d3, fact d4)
qed

theorem get_stratification_key_witness:
  "map_of [(''chexpert_patient1'', [''normal'', ''edema'', ''pneumothorax''])] ''chexpert_patient1''
     = Some [''normal'', ''edema'', ''pneumothorax'']
   \<and> set [''normal'', ''edema'', ''pneumothorax''] \<subseteq> set priority_diseases
   \<and> get_stratification_key [(''chexpert_patient1'', [''normal'', ''edema'', ''pneumothorax''])]
        ''chexpert_patient1'' = ''pneumothorax''
   \<and> get_stratification_key [(''chexpert_patient1'', [''pneumothorax'', ''normal'', ''edema''])]
        ''chexpert_patient1'' = ''pneumothorax''"
proof -
  let ?ds = "[''normal'', ''edema'', ''pneumothorax'']"
  let ?labels = "[(''chexpert_patient1'', ?ds)]"
  let ?labels' = "[(''chexpert_patient1'', [''pneumothorax'', ''normal'', ''edema''])]"
  have h1: "map_of ?labels ''chexpert_patient1'' = Some ?ds" by simp
  have h2: "set ?ds \<subseteq> set priority_diseases" by (simp add: priority_diseases_def)
  have v: "get_stratification_key ?labels ''chexpert_patient1'' = ''pneumothorax''"
    by (simp add: get_stratification_key_def stratification_key_of_def priority_diseases_def)
  note c = get_stratification_key_spec [OF h1 h2, THEN conjunct2, THEN conjunct2, THEN conjunct1,
      rule_format, of ?labels' "[''pneumothorax'', ''normal'', ''edema'']"]
  have "map_of ?labels' ''chexpert_patient1'' = Some [''pneumothorax'', ''normal'', ''edema'']
        \<and> set [''pneumothorax'', ''normal'', ''edema''] = set ?ds"
    by auto
  then have "get_stratification_key ?labels' ''chexpert_patient1''
          = get_stratification_key ?labels ''chexpert_patient1''"
    by (rule c)
  with h1 h2 v show ?thesis by simp
qed

subsection \<open>Patient grouper\<close>

lemma keys_dd_append: "set (keys (dd_append d k v)) = insert k (set (keys d))"
  by (induction d k v rule: dd_append.induct) (auto simp: keys_def)

lemma distinct_keys_dd_append: "distinct (keys d) \<Longrightarrow> distinct (keys (dd_append d k v))"
proof (induction d k v rule: dd_append.induct)
  case (1 k v)
  then show ?case by (simp add: keys_def)
next
  case (2 k' vs d k v)
  have "set (map fst (dd_append d k v)) = insert k (set (map fst d))"
    using keys_dd_append [of d k v] by (simp add: keys_def)
  with 2 show ?case by (auto simp: keys_def)
qed

lemma extract_patient_id_raises:
  "(\<exists>e. extract_patient_id hash fname src = Inl e) \<longleftrightarrow> (src \<noteq> ''CheXpert'' \<and> src \<noteq> ''Radiopaedia'')"
  by (simp add: extract_patient_id_def split: option.splits)

lemma extract_patient_id_prefix:
  assumes "extract_patient_id hash fname src = Inr pid"
  shows "prefix ''chexpert_'' pid \<or> prefix ''radiopaedia_'' pid"
proof -
  have "src = ''CheXpert'' \<or> src = ''Radiopaedia''"
    using assms extract_patient_id_raises [of hash fname src] by auto
  then show ?thesis
  proof
    assume "src = ''CheXpert''"
    with assms have "prefix ''chexpert_'' pid"
      by (auto simp: extract_patient_id_def split: option.splits)
    then show ?thesis ..
  next
    assume "src = ''Radiopaedia''"
    with assms have "prefix ''radiopaedia_'' pid"
      by (auto simp: extract_patient_id_def split: option.splits)
    then show ?thesis ..
  qed
qed

lemma group_rows_keys:
  assumes "group_rows hash pd rows = Inr pd'"
    and "\<forall>k\<in>set (keys pd). prefix ''chexpert_'' k \<or> prefix ''radiopaedia_'' k"
    and "distinct (keys pd)"
  shows "(\<forall>k\<in>set (keys pd'). prefix ''chexpert_'' k \<or> prefix ''radiopaedia_'' k) \<and> distinct (keys pd')"
  using assms
proof (induction rows arbitrary: pd)
  case Nil
  then show ?case by simp
next
  case (Cons row rows)
  from Cons.prems(1) obtain pid where
    pid: "extract_patient_id hash (filename row) (source row) = Inr pid"
    and rest: "group_rows hash (dd_append pd pid (row\<lparr>patient_id := Some pid\<rparr>)) rows = Inr pd'"
    by (auto split: sum.splits)
  let ?pd = "dd_append pd pid (row\<lparr>patient_id := Some pid\<rparr>)"
  have "\<forall>k\<in>set (keys ?pd). prefix ''chexpert_'' k \<or> prefix ''radiopaedia_'' k"
    using Cons.prems(2) extract_patient_id_prefix [OF pid] by (simp add: keys_dd_append)
  moreover have "distinct (keys ?pd)"
    using Cons.prems(3) by (rule distinct_keys_dd_append)
  ultimately show ?case
    using Cons.IH [OF rest] by blast
qed

lemma group_by_patient_keys:
  assumes "group_by_patient hash rows = Inr pd"
  shows "(\<forall>k\<in>set (keys pd). prefix ''chexpert_'' k \<or> prefix ''radiopaedia_'' k) \<and> distinct (keys pd)"
  using group_rows_keys [of hash "[]" rows pd] assms
  by (simp add: group_by_patient_def keys_def)



subsection \<open>Stratified allocator\<close>

lemma py_int_nonneg: "0 \<le> x \<Longrightarrow> py_int x = \<lfloor>x\<rfloor> \<and> 0 \<le> \<lfloor>x\<rfloor>"
  by (simp add: py_int_def)

lemma py_slice_prefix: "0 \<le> a \<Longrightarrow> py_slice xs None (Some a) = take (nat a) xs"
  by (simp add: py_slice_def norm_index_def min_def Let_def)

lemma py_slice_suffix: "0 \<le> c \<Longrightarrow> py_slice xs (Some c) None = drop (nat c) xs"
  by (simp add: py_slice_def norm_index_def min_def Let_def)

lemma py_slice_middle:
  assumes "0 \<le> a" "0 \<le> b"
  shows "py_slice xs (Some a) (Some (a + b)) = take (nat b) (drop (nat a) xs)"
proof (cases "nat a \<le> length xs")
  case True
  show ?thesis
  proof (cases "nat a + nat b \<le> length xs")
    case True
    with assms \<open>nat a \<le> length xs\<close> show ?thesis
      by (simp add: py_slice_def norm_index_def min_def nat_add_distrib)
  next
    case False
    with assms \<open>nat a \<le> length xs\<close> show ?thesis
      by (simp add: py_slice_def norm_index_def min_def nat_add_distrib)
  qed
next
  case False
  with assms show ?thesis
    by (simp add: py_slice_def norm_index_def min_def nat_add_distrib)
qed

lemma cut_group_nonneg:
  assumes "0 \<le> tr" "0 \<le> vr"
  shows "cut_group n ps tr vr =
           \<lparr>train = take (nat \<lfloor>of_nat n * tr\<rfloor>) ps,
            val = take (nat \<lfloor>of_nat n * vr\<rfloor>) (drop (nat \<lfloor>of_nat n * tr\<rfloor>) ps),
            test = drop (nat \<lfloor>of_nat n * tr\<rfloor> + nat \<lfloor>of_nat n * vr\<rfloor>) ps\<rparr>"
proof -
  have a: "py_int (of_nat n * tr) = \<lfloor>of_nat n * tr\<rfloor>" "0 \<le> \<lfloor>of_nat n * tr\<rfloor>"
    using assms(1) py_int_nonneg [of "of_nat n * tr"] by simp_all
  have b: "py_int (of_nat n * vr) = \<lfloor>of_nat n * vr\<rfloor>" "0 \<le> \<lfloor>of_nat n * vr\<rfloor>"
    using assms(2) py_int_nonneg [of "of_nat n * vr"] by simp_all
  have c: "0 \<le> \<lfloor>of_nat n * tr\<rfloor> + \<lfloor>of_nat n * vr\<rfloor>"
    using a(2) b(2) by linarith
  show ?thesis
    unfolding cut_group_def Let_def a(1) b(1)
    using py_slice_prefix [OF a(2), of ps] py_slice_middle [OF a(2) b(2), of ps]
      py_slice_suffix [OF c, of ps] a(2) b(2)
    by (simp add: nat_add_distrib)
qed

lemma three_pieces: "take a xs @ take b (drop a xs) @ drop (a + b) xs = xs"
proof -
  have "take a xs @ take b (drop a xs) = take (a + b) xs"
    by (simp add: take_add)
  then have "(take a xs @ take b (drop a xs)) @ drop (a + b) xs = xs"
    by simp
  then show ?thesis by simp
qed

lemma cut_group_pieces:
  assumes "0 \<le> tr" "0 \<le> vr"
  shows "train (cut_group n ps tr vr) @ val (cut_group n ps tr vr) @ test (cut_group n ps tr vr) = ps"
  unfolding cut_group_nonneg [OF assms] by (simp add: three_pieces)

lemma cut_group_mset:
  assumes "0 \<le> tr" "0 \<le> vr"
  shows "mset (train (cut_group n ps tr vr)) + mset (val (cut_group n ps tr vr))
           + mset (test (cut_group n ps tr vr)) = mset ps"
proof -
  have "mset (train (cut_group n ps tr vr) @ val (cut_group n ps tr vr) @ test (cut_group n ps tr vr)) = mset ps"
    using cut_group_pieces [OF assms] by simp
  then show ?thesis by (simp add: ac_simps)
qed

lemma split_groups_mset:
  assumes "is_permuting sh" "0 \<le> tr" "0 \<le> vr"
    and "split_groups sh tr vr g acc groups = (r, g')"
  shows "mset (train r) + mset (val r) + mset (test r) =
           mset (train acc) + mset (val acc) + mset (test acc) + mset (concat (map snd groups))"
  using assms(4)
proof (induction groups arbitrary: g acc)
  case Nil
  then show ?case by simp
next
  case (Cons grp groups)
  obtain disease patients where grp: "grp = (disease, patients)" by (cases grp)
  obtain shuffled g1 where s: "sh g patients = (shuffled, g1)" by (cases "sh g patients")
  have perm: "mset shuffled = mset patients"
    using assms(1) s unfolding is_permuting_def by (metis fst_conv)
  let ?c = "cut_group (length patients) shuffled tr vr"
  let ?acc = "\<lparr>train = train acc @ train ?c, val = val acc @ val ?c, test = test acc @ test ?c\<rparr>"
  from Cons.prems have "split_groups sh tr vr g1 ?acc groups = (r, g')"
    by (simp add: grp s Let_def)
  from Cons.IH [OF this]
  have "mset (train r) + mset (val r) + mset (test r) =
          mset (train acc) + mset (val acc) + mset (test acc)
          + (mset (train ?c) + mset (val ?c) + mset (test ?c)) + mset (concat (map snd groups))"
    by (simp add: ac_simps)
  also have "mset (train ?c) + mset (val ?c) + mset (test ?c) = mset patients"
    using cut_group_mset [OF assms(2,3), of "length patients" shuffled] perm by simp
  finally show ?case by (simp add: grp ac_simps)
qed

lemma dd_append_mset:
  "mset (concat (map snd (dd_append d k v))) = mset (concat (map snd d)) + {#v#}"
  by (induction d k v rule: dd_append.induct) auto

lemma group_by_label_mset:
  "mset (concat (map snd (group_by_label dg zs))) = mset (concat (map snd dg)) + mset (map fst zs)"
  by (induction dg zs rule: group_by_label.induct) (auto simp: dd_append_mset)

lemma stratified_split_mset:
  assumes "is_permuting sh" "0 \<le> tr" "0 \<le> vr"
    and "stratified_split_patients sh labels g patient_ids tr vr ter = Inr (r, g')"
  shows "mset (train r @ val r @ test r) = mset patient_ids"
proof -
  let ?groups = "group_by_label [] (zip patient_ids (map (get_stratification_key labels) patient_ids))"
  from assms(4) have "split_groups sh tr vr g \<lparr>train = [], val = [], test = []\<rparr> ?groups = (r, g')"
    by (simp add: stratified_split_patients_def Let_def split: if_splits)
  from split_groups_mset [OF assms(1-3) this]
  have "mset (train r) + mset (val r) + mset (test r) = mset (concat (map snd ?groups))"
    by simp
  also have "\<dots> = mset patient_ids"
    by (simp add: group_by_label_mset)
  finally show ?thesis by (simp add: ac_simps)
qed

lemma stratified_split_returns:
  "ratios_ok tr vr ter \<Longrightarrow> \<exists>r g'. stratified_split_patients sh labels g patient_ids tr vr ter = Inr (r, g')"
  by (simp add: stratified_split_patients_def Let_def)

lemma stratified_split_raises:
  "\<not> ratios_ok tr vr ter \<Longrightarrow>
     stratified_split_patients sh labels g patient_ids tr vr ter
       = Inl (AssertionError ''Ratios must sum to 1.0'')"
  by (simp add: stratified_split_patients_def)

lemma mset_rotate_eq: "mset (rotate n xs) = mset xs"
proof -
  have "mset (take (n mod length xs) xs @ drop (n mod length xs) xs) = mset xs"
    by (simp only: append_take_drop_id)
  then have "mset (drop (n mod length xs) xs) + mset (take (n mod length xs) xs) = mset xs"
    by (simp only: mset_append add.commute)
  then show ?thesis
    by (simp add: rotate_drop_take)
qed

lemma rotate_shuffle_permuting: "is_permuting rotate_shuffle"
  by (simp add: is_permuting_def rotate_shuffle_def mset_rotate_eq)

lemma prefixes_exclusive: "prefix ''chexpert_'' k \<Longrightarrow> \<not> prefix ''radiopaedia_'' k"
  by (auto simp: prefix_def)

lemma source_partition_mset:
  assumes "\<forall>k\<in>set ks. prefix ''chexpert_'' k \<or> prefix ''radiopaedia_'' k"
  shows "mset (filter (prefix ''chexpert_'') ks) + mset (filter (prefix ''radiopaedia_'') ks) = mset ks"
  using assms
proof (induction ks)
  case Nil
  then show ?case by simp
next
  case (Cons k ks)
  then show ?case using prefixes_exclusive [of k] by auto
qed

lemma create_splits_parts:
  assumes "create_splits sh labels g pd tr vr ter = Inr (sp, pd', g')"
  shows "\<exists>cs g1 rs.
           stratified_split_patients sh labels g (filter (prefix ''chexpert_'') (keys pd)) tr vr ter
             = Inr (cs, g1)
         \<and> stratified_split_patients sh labels g1 (filter (prefix ''radiopaedia_'') (keys pd)) tr vr ter
             = Inr (rs, g')
         \<and> train_patients sp = train cs @ train rs
         \<and> val_patients sp = val cs @ val rs
         \<and> test_patients sp = test cs @ test rs"
  using assms
  by (auto simp: create_splits_def Let_def split: sum.splits prod.splits)

lemma create_splits_returns:
  assumes "ratios_ok tr vr ter"
  shows "\<exists>sp pd' g'. create_splits sh labels g pd tr vr ter = Inr (sp, pd', g')"
  using assms
  by (simp add: create_splits_def stratified_split_patients_def Let_def split: prod.splits)

lemma create_splits_mset:
  assumes "is_permuting sh" "0 \<le> tr" "0 \<le> vr"
    and "create_splits sh labels g pd tr vr ter = Inr (sp, pd', g')"
    and "\<forall>k\<in>set (keys pd). prefix ''chexpert_'' k \<or> prefix ''radiopaedia_'' k"
  shows "mset (train_patients sp @ val_patients sp @ test_patients sp) = mset (keys pd)"
proof -
  from create_splits_parts [OF assms(4)] obtain cs g1 rs where
    c: "stratified_split_patients sh labels g (filter (prefix ''chexpert_'') (keys pd)) tr vr ter
             = Inr (cs, g1)"
    and r: "stratified_split_patients sh labels g1 (filter (prefix ''radiopaedia_'') (keys pd)) tr vr ter
             = Inr (rs, g')"
    and eqs: "train_patients sp = train cs @ train rs" "val_patients sp = val cs @ val rs"
      "test_patients sp = test cs @ test rs"
    by blast
  have "mset (train_patients sp @ val_patients sp @ test_patients sp)
          = mset (train cs @ val cs @ test cs) + mset (train rs @ val rs @ test rs)"
    by (simp add: eqs ac_simps)
  also have "\<dots> = mset (filter (prefix ''chexpert_'') (keys pd))
                  + mset (filter (prefix ''radiopaedia_'') (keys pd))"
    using stratified_split_mset [OF assms(1-3) c] stratified_split_mset [OF assms(1-3) r]
    by simp
  also have "\<dots> = mset (keys pd)"
    using assms(5) by (rule source_partition_mset)
  finally show ?thesis .
qed

lemma mset_eq_distinct_set:
  assumes "mset xs = mset ys" "distinct ys"
  shows "distinct xs \<and> set xs = set ys"
  using assms by (metis mset_eq_imp_distinct_iff mset_eq_setD)




text \<open>
  Claim C1, as amended. For ratios accepted by the entry check whose \<open>train_ratio\<close> and
  \<open>val_ratio\<close> are not negative, and a list of patient identifiers without duplicates,
  \<open>stratified_split_patients\<close> returns three lists that are pairwise disjoint, without
  repetition, and whose union is the set of input identifiers; the same holds of the
  combined lists of \<open>create_splits\<close> against the keys of the patient groups made by
  \<open>group_by_patient\<close>.
\<close>

theorem allocation_partitions:
  assumes "is_permuting sh" and "ratios_ok tr vr ter" and "0 \<le> tr" and "0 \<le> vr"
  shows "(distinct patient_ids \<longrightarrow>
            (\<exists>r g'. stratified_split_patients sh labels g patient_ids tr vr ter = Inr (r, g')
               \<and> distinct (train r @ val r @ test r)
               \<and> set (train r) \<union> set (val r) \<union> set (test r) = set patient_ids))
       \<and> (\<forall>pd. group_by_patient hash rows = Inr pd \<longrightarrow>
            (\<exists>sp pd' g'. create_splits sh labels g pd tr vr ter = Inr (sp, pd', g')
               \<and> distinct (train_patients sp @ val_patients sp @ test_patients sp)
               \<and> set (train_patients sp) \<union> set (val_patients sp) \<union> set (test_patients sp)
                   = set (keys pd)))"
proof (intro conjI allI impI)
  assume d: "distinct patient_ids"
  from stratified_split_returns [OF assms(2), of sh labels g patient_ids] obtain r g' where
    r: "stratified_split_patients sh labels g patient_ids tr vr ter = Inr (r, g')"
    by blast
  from mset_eq_distinct_set [OF stratified_split_mset [OF assms(1,3,4) r] d]
  have "distinct (train r @ val r @ test r)"
    and "set (train r) \<union> set (val r) \<union> set (test r) = set patient_ids"
    by auto
  with r show "\<exists>r g'. stratified_split_patients sh labels g patient_ids tr vr ter = Inr (r, g')
               \<and> distinct (train r @ val r @ test r)
               \<and> set (train r) \<union> set (val r) \<union> set (test r) = set patient_ids"
    by blast
next
  fix pd assume gp: "group_by_patient hash rows = Inr pd"
  from group_by_patient_keys [OF gp]
  have pre: "\<forall>k\<in>set (keys pd). prefix ''chexpert_'' k \<or> prefix ''radiopaedia_'' k"
    and d: "distinct (keys pd)"
    by blast+
  from create_splits_returns [OF assms(2), of sh labels g pd] obtain sp pd' g' where
    c: "create_splits sh labels g pd tr vr ter = Inr (sp, pd', g')"
    by blast
  from mset_eq_distinct_set [OF create_splits_mset [OF assms(1,3,4) c pre] d]
  have "distinct (train_patients sp @ val_patients sp @ test_patients sp)"
    and "set (train_patients sp) \<union> set (val_patients sp) \<union> set (test_patients sp) = set (keys pd)"
    by auto
  with c show "\<exists>sp pd' g'. create_splits sh labels g pd tr vr ter = Inr (sp, pd', g')
               \<and> distinct (train_patients sp @ val_patients sp @ test_patients sp)
               \<and> set (train_patients sp) \<union> set (val_patients sp) \<union> set (test_patients sp)
                   = set (keys pd)"
    by blast
qed

theorem allocation_partitions_witness:
  "is_permuting rotate_shuffle
   \<and> ratios_ok (1 / 2) (1 / 4) (1 / 4) \<and> (0::rat) \<le> 1 / 2 \<and> (0::rat) \<le> 1 / 4
   \<and> distinct [''chexpert_patient1'', ''chexpert_patient2'', ''chexpert_patient3'', ''chexpert_patient4'']
   \<and> (\<exists>r g'. stratified_split_patients rotate_shuffle [] 1
                [''chexpert_patient1'', ''chexpert_patient2'', ''chexpert_patient3'', ''chexpert_patient4'']
                (1 / 2) (1 / 4) (1 / 4) = Inr (r, g')
          \<and> distinct (train r @ val r @ test r)
          \<and> set (train r) \<union> set (val r) \<union> set (test r)
              = set [''chexpert_patient1'', ''chexpert_patient2'', ''chexpert_patient3'', ''chexpert_patient4''])
   \<and> group_by_patient (\<lambda>f. - 3) two_sources = Inr (projr (group_by_patient (\<lambda>f. - 3) two_sources))
   \<and> (\<exists>sp pd' g'. create_splits rotate_shuffle [] 1 (projr (group_by_patient (\<lambda>f. - 3) two_sources))
                (1 / 2) (1 / 4) (1 / 4) = Inr (sp, pd', g')
          \<and> distinct (train_patients sp @ val_patients sp @ test_patients sp)
          \<and> set (train_patients sp) \<union> set (val_patients sp) \<union> set (test_patients sp)
              = set (keys (projr (group_by_patient (\<lambda>f. - 3) two_sources))))"
proof -
  have r: "ratios_ok (1 / 2) (1 / 4) (1 / 4)" by (simp add: ratios_ok_def)
  have n1: "(0::rat) \<le> 1 / 2" and n2: "(0::rat) \<le> 1 / 4" by simp_all
  have d: "distinct [''chexpert_patient1'', ''chexpert_patient2'', ''chexpert_patient3'', ''chexpert_patient4'']"
    by simp
  have "\<not> isl (group_by_patient (\<lambda>f. - 3) two_sources)"
    by code_simp
  then have g: "group_by_patient (\<lambda>f. - 3) two_sources
                  = Inr (projr (group_by_patient (\<lambda>f. - 3) two_sources))"
    by simp
  note t = allocation_partitions [OF rotate_shuffle_permuting r n1 n2,
      of "[''chexpert_patient1'', ''chexpert_patient2'', ''chexpert_patient3'', ''chexpert_patient4'']"
         "[]" 1 "\<lambda>f. - 3" two_sources]
  note t1 = t [THEN conjunct1, rule_format, OF d]
  note t2 = t [THEN conjunct2, rule_format, OF g]
  from rotate_shuffle_permuting r n1 n2 d t1 g t2 show ?thesis by (intro conjI)
qed

text \<open>
  Claim C1 as stated fails: the entry check only looks at the sum, so it accepts the
  ratios \<open>-0.5, 0.5, 1.0\<close>. With four patients of one group, \<open>n_train = -2\<close> and
  \<open>n_val = 2\<close>: \<open>patients[:-2]\<close> is the first two, \<open>patients[-2:0]\<close> is empty and
  \<open>patients[0:]\<close> is all four, so two patients are in both train and test.
\<close>

theorem negative_ratio_overlap:
  "ratios_ok (- 1 / 2) (1 / 2) 1
   \<and> distinct [''chexpert_patient1'', ''chexpert_patient2'', ''chexpert_patient3'', ''chexpert_patient4'']
   \<and> stratified_split_patients rotate_shuffle [] 0
        [''chexpert_patient1'', ''chexpert_patient2'', ''chexpert_patient3'', ''chexpert_patient4'']
        (- 1 / 2) (1 / 2) 1
      = Inr (\<lparr>train = [''chexpert_patient1'', ''chexpert_patient2''],
              val = [],
              test = [''chexpert_patient1'', ''chexpert_patient2'', ''chexpert_patient3'',
                      ''chexpert_patient4'']\<rparr>, 1)"
  by (simp add: ratios_ok_def stratified_split_patients_def get_stratification_key_def
      stratification_key_of_def priority_diseases_def cut_group_def py_slice_def py_int_def
      norm_index_def rotate_shuffle_def)

subsection \<open>Split validator\<close>

lemma validate_splits_fields:
  assumes "validate_splits pd sp = Inr vr"
  shows "train_has_both_sources vr = (length (remdups (map source (train_df sp))) = 2)"
    and "val_has_both_sources vr = (length (remdups (map source (val_df sp))) = 2)"
    and "test_has_both_sources vr = (length (remdups (map source (test_df sp))) = 2)"
    and "overall_valid vr =
           (no_patient_overlap vr \<and> ratio_validation vr \<and> train_has_both_sources vr
            \<and> val_has_both_sources vr \<and> test_has_both_sources vr \<and> all_patients_assigned vr)"
    and "train_df sp \<noteq> []" and "val_df sp \<noteq> []" and "test_df sp \<noteq> []"
  using assms
  by (auto simp: validate_splits_def df_source_unique_def Let_def split: if_splits)

lemma validate_splits_ratio:
  assumes "validate_splits pd sp = Inr vr"
  shows "ratio_validation vr =
           (\<bar>of_nat (card (set (train_patients sp)))
               / of_nat (card (set (train_patients sp)) + card (set (val_patients sp))
                          + card (set (test_patients sp))) - (80 / 100 :: rat)\<bar> < 5 / 100
            \<and> \<bar>of_nat (card (set (val_patients sp)))
               / of_nat (card (set (train_patients sp)) + card (set (val_patients sp))
                          + card (set (test_patients sp))) - (10 / 100 :: rat)\<bar> < 5 / 100
            \<and> \<bar>of_nat (card (set (test_patients sp)))
               / of_nat (card (set (train_patients sp)) + card (set (val_patients sp))
                          + card (set (test_patients sp))) - (10 / 100 :: rat)\<bar> < 5 / 100)"
  using assms
  by (auto simp: validate_splits_def df_source_unique_def Let_def length_remdups_card_conv
           split: if_splits)

lemma two_sources_card:
  assumes "\<forall>r\<in>set df. source r = ''CheXpert'' \<or> source r = ''Radiopaedia''"
  shows "length (remdups (map source df)) = 2
           \<longleftrightarrow> ''CheXpert'' \<in> source ` set df \<and> ''Radiopaedia'' \<in> source ` set df"
proof -
  have sub: "source ` set df \<subseteq> {''CheXpert'', ''Radiopaedia''}"
    using assms by auto
  have c2: "card {''CheXpert'', ''Radiopaedia''} = 2" by simp
  have len: "length (remdups (map source df)) = card (source ` set df)"
    by (simp add: length_remdups_card_conv)
  show ?thesis
  proof
    assume "length (remdups (map source df)) = 2"
    with len c2 have "card (source ` set df) = card {''CheXpert'', ''Radiopaedia''}" by simp
    with sub have "source ` set df = {''CheXpert'', ''Radiopaedia''}"
      by (intro card_subset_eq) simp_all
    then show "''CheXpert'' \<in> source ` set df \<and> ''Radiopaedia'' \<in> source ` set df"
      by simp
  next
    assume "''CheXpert'' \<in> source ` set df \<and> ''Radiopaedia'' \<in> source ` set df"
    with sub have "source ` set df = {''CheXpert'', ''Radiopaedia''}" by blast
    with len c2 show "length (remdups (map source df)) = 2" by simp
  qed
qed

text \<open>
  Claim C7 says that the ratio check compares each split's share of the patients with the
  ratios the allocator was invoked with. The code compares with the constants 0.80, 0.10
  and 0.10 (\<open>validate_splits_ratio\<close>). After \<open>create_splits(0.5, 0.25, 0.25)\<close> on eight
  patients the shares are exactly 4/8, 2/8 and 2/8, the requested ratios, every other check
  passes, and \<open>ratio_validation\<close> is \<open>False\<close>.
\<close>

theorem requested_ratios_not_checked:
  "train_patients (fst eight_split)
      = [''chexpert_patient1'', ''chexpert_patient2'', ''radiopaedia_2'', ''radiopaedia_3'']
   \<and> val_patients (fst eight_split) = [''chexpert_patient3'', ''radiopaedia_4'']
   \<and> test_patients (fst eight_split) = [''chexpert_patient4'', ''radiopaedia_1'']
   \<and> validate_splits (fst (snd eight_split)) (fst eight_split)
      = Inr \<lparr>no_patient_overlap = True, ratio_validation = False,
              train_has_both_sources = True, val_has_both_sources = True,
              test_has_both_sources = True, all_patients_assigned = True,
              overall_valid = False\<rparr>"
  by code_simp

text \<open>
  Claim C8, as amended. Whenever the validator returns a report, a split's source check
  passes if and only if the image rows of the split carry both recognised source tags,
  \<open>CheXpert\<close> and \<open>Radiopaedia\<close>, whether or not both occur in the inventory; and the
  overall verdict is the conjunction of all six checks, so a failed source check makes
  it fail.
\<close>

theorem source_check_both_and_decisive:
  assumes "validate_splits pd sp = Inr vr"
    and "\<forall>r\<in>set (train_df sp @ val_df sp @ test_df sp).
           source r = ''CheXpert'' \<or> source r = ''Radiopaedia''"
  shows "(train_has_both_sources vr \<longleftrightarrow>
            ''CheXpert'' \<in> source ` set (train_df sp) \<and> ''Radiopaedia'' \<in> source ` set (train_df sp))
       \<and> (val_has_both_sources vr \<longleftrightarrow>
            ''CheXpert'' \<in> source ` set (val_df sp) \<and> ''Radiopaedia'' \<in> source ` set (val_df sp))
       \<and> (test_has_both_sources vr \<longleftrightarrow>
            ''CheXpert'' \<in> source ` set (test_df sp) \<and> ''Radiopaedia'' \<in> source ` set (test_df sp))
       \<and> (overall_valid vr \<longleftrightarrow>
            no_patient_overlap vr \<and> ratio_validation vr \<and> train_has_both_sources vr
            \<and> val_has_both_sources vr \<and> test_has_both_sources vr \<and> all_patients_assigned vr)"
proof -
  have a: "\<forall>r\<in>set (train_df sp). source r = ''CheXpert'' \<or> source r = ''Radiopaedia''"
    and b: "\<forall>r\<in>set (val_df sp). source r = ''CheXpert'' \<or> source r = ''Radiopaedia''"
    and c: "\<forall>r\<in>set (test_df sp). source r = ''CheXpert'' \<or> source r = ''Radiopaedia''"
    using assms(2) by auto
  note f = validate_splits_fields [OF assms(1)]
  show ?thesis
    unfolding f(1) f(2) f(3) two_sources_card [OF a] two_sources_card [OF b] two_sources_card [OF c]
    using f(4) unfolding f(1) f(2) f(3) two_sources_card [OF a] two_sources_card [OF b] two_sources_card [OF c]
    by simp
qed

theorem source_check_both_and_decisive_witness:
  "validate_splits (fst (snd eight_split)) (fst eight_split)
      = Inr \<lparr>no_patient_overlap = True, ratio_validation = False,
              train_has_both_sources = True, val_has_both_sources = True,
              test_has_both_sources = True, all_patients_assigned = True,
              overall_valid = False\<rparr>
   \<and> map source (train_df (fst eight_split) @ val_df (fst eight_split) @ test_df (fst eight_split))
      = [''CheXpert'', ''CheXpert'', ''Radiopaedia'', ''Radiopaedia'',
         ''CheXpert'', ''Radiopaedia'', ''CheXpert'', ''Radiopaedia'']
   \<and> ''CheXpert'' \<in> source ` set (val_df (fst eight_split))
   \<and> ''Radiopaedia'' \<in> source ` set (val_df (fst eight_split))"
proof -
  let ?vr = "\<lparr>no_patient_overlap = True, ratio_validation = False,
              train_has_both_sources = True, val_has_both_sources = True,
              test_has_both_sources = True, all_patients_assigned = True,
              overall_valid = False\<rparr>"
  have v: "validate_splits (fst (snd eight_split)) (fst eight_split) = Inr ?vr"
    by code_simp
  have m: "map source (train_df (fst eight_split) @ val_df (fst eight_split) @ test_df (fst eight_split))
      = [''CheXpert'', ''CheXpert'', ''Radiopaedia'', ''Radiopaedia'',
         ''CheXpert'', ''Radiopaedia'', ''CheXpert'', ''Radiopaedia'']"
    by code_simp
  have "source ` set (train_df (fst eight_split) @ val_df (fst eight_split) @ test_df (fst eight_split))
          = {''CheXpert'', ''Radiopaedia''}"
    unfolding set_map [symmetric] m by auto
  then have h: "\<forall>r\<in>set (train_df (fst eight_split) @ val_df (fst eight_split) @ test_df (fst eight_split)).
                  source r = ''CheXpert'' \<or> source r = ''Radiopaedia''"
    by blast
  from source_check_both_and_decisive [OF v h]
  have "''CheXpert'' \<in> source ` set (val_df (fst eight_split))
        \<and> ''Radiopaedia'' \<in> source ` set (val_df (fst eight_split))"
    by simp
  with v m show ?thesis by (intro conjI) simp_all
qed

text \<open>
  Claim C8 as stated fails on an inventory of ten CheXpert patients: every split holds
  a patient of the only source present, the other checks pass, yet each source check
  is \<open>False\<close> and so is the overall verdict.
\<close>

theorem single_source_fails_verdict:
  "map source ten_chexpert = replicate 10 ''CheXpert''
   \<and> map source (train_df (fst ten_split)) = replicate 8 ''CheXpert''
   \<and> map source (val_df (fst ten_split)) = [''CheXpert'']
   \<and> map source (test_df (fst ten_split)) = [''CheXpert'']
   \<and> validate_splits (fst (snd ten_split)) (fst ten_split)
      = Inr \<lparr>no_patient_overlap = True, ratio_validation = True,
              train_has_both_sources = False, val_has_both_sources = False,
              test_has_both_sources = False, all_patients_assigned = True,
              overall_valid = False\<rparr>"
  by code_simp

subsection \<open>Expansion of patients into image rows\<close>







lemma keys_unstamped: "keys (unstamped pd) = keys pd"
  by (induction pd) (auto simp: unstamped_def keys_def)


lemma blank_after_stamp:
  "map (\<lambda>image. image\<lparr>split := None\<rparr>) (map (\<lambda>image. image\<lparr>split := Some n\<rparr>) images)
     = map (\<lambda>image. image\<lparr>split := None\<rparr>) images"
  by simp












subsection \<open>The pipeline\<close>

lemma create_splits_raises:
  "\<not> ratios_ok tr vr ter \<Longrightarrow>
     create_splits sh labels g pd tr vr ter = Inl (AssertionError ''Ratios must sum to 1.0'')"
  by (simp add: create_splits_def stratified_split_patients_def Let_def)

lemma main_ignores_ratios:
  "main sh seed_rng hash fs read_csv
     (args\<lparr>arg_train_ratio := a, arg_val_ratio := b, arg_test_ratio := c\<rparr>) out
   = main sh seed_rng hash fs read_csv args out"
  by (simp add: main_def)

text \<open>
  Claim C3 says that a run with ratios whose sum is off by more than the tolerance, such
  as 0.7, 0.2, 0.2, fails at entry and writes no file. The allocator has the entry
  assertion (\<open>stratified_split_raises\<close>, \<open>create_splits_raises\<close>), but \<open>main\<close> drops the
  parsed ratios (\<open>main_ignores_ratios\<close>): the run below, started with 0.7, 0.2, 0.2,
  splits with the defaults, reports no error and writes all five files.
\<close>

theorem cli_ratios_ignored:
  "\<not> ratios_ok (7 / 10) (2 / 10) (2 / 10)
   \<and> fst (main rotate_shuffle seed_counter (\<lambda>f. 7) (\<lambda>p. None) (\<lambda>path. ten_chexpert_csv)
        \<lparr>arg_master_index = ''metadata/master_index.csv'', arg_output_dir = ''metadata/splits'',
         arg_train_ratio = 7 / 10, arg_val_ratio = 2 / 10, arg_test_ratio = 2 / 10,
         arg_random_seed = 42\<rparr> no_files) = None
   \<and> map_option length (train_index (snd
        (main rotate_shuffle seed_counter (\<lambda>f. 7) (\<lambda>p. None) (\<lambda>path. ten_chexpert_csv)
        \<lparr>arg_master_index = ''metadata/master_index.csv'', arg_output_dir = ''metadata/splits'',
         arg_train_ratio = 7 / 10, arg_val_ratio = 2 / 10, arg_test_ratio = 2 / 10,
         arg_random_seed = 42\<rparr> no_files))) = Some 8
   \<and> map_option length (val_index (snd
        (main rotate_shuffle seed_counter (\<lambda>f. 7) (\<lambda>p. None) (\<lambda>path. ten_chexpert_csv)
        \<lparr>arg_master_index = ''metadata/master_index.csv'', arg_output_dir = ''metadata/splits'',
         arg_train_ratio = 7 / 10, arg_val_ratio = 2 / 10, arg_test_ratio = 2 / 10,
         arg_random_seed = 42\<rparr> no_files))) = Some 1
   \<and> map_option length (test_index (snd
        (main rotate_shuffle seed_counter (\<lambda>f. 7) (\<lambda>p. None) (\<lambda>path. ten_chexpert_csv)
        \<lparr>arg_master_index = ''metadata/master_index.csv'', arg_output_dir = ''metadata/splits'',
         arg_train_ratio = 7 / 10, arg_val_ratio = 2 / 10, arg_test_ratio = 2 / 10,
         arg_random_seed = 42\<rparr> no_files))) = Some 1
   \<and> map_option (\<lambda>md. (n_patients (train_summary md), n_patients (val_summary md),
                        n_patients (test_summary md))) (split_metadata (snd
        (main rotate_shuffle seed_counter (\<lambda>f. 7) (\<lambda>p. None) (\<lambda>path. ten_chexpert_csv)
        \<lparr>arg_master_index = ''metadata/master_index.csv'', arg_output_dir = ''metadata/splits'',
         arg_train_ratio = 7 / 10, arg_val_ratio = 2 / 10, arg_test_ratio = 2 / 10,
         arg_random_seed = 42\<rparr> no_files))) = Some (8, 1, 1)
   \<and> map_option length (patient_mapping (snd
        (main rotate_shuffle seed_counter (\<lambda>f. 7) (\<lambda>p. None) (\<lambda>path. ten_chexpert_csv)
        \<lparr>arg_master_index = ''metadata/master_index.csv'', arg_output_dir = ''metadata/splits'',
         arg_train_ratio = 7 / 10, arg_val_ratio = 2 / 10, arg_test_ratio = 2 / 10,
         arg_random_seed = 42\<rparr> no_files))) = Some 10"
  by code_simp

lemma extract_patient_id_parsed:
  assumes "source row = ''CheXpert'' \<longrightarrow> re_search_digits ''patient'' (filename row) \<noteq> None"
    and "source row = ''Radiopaedia'' \<longrightarrow> re_search_digits ''radiopaedia_'' (filename row) \<noteq> None"
  shows "extract_patient_id h1 (filename row) (source row)
           = extract_patient_id h2 (filename row) (source row)"
  using assms by (auto simp: extract_patient_id_def split: option.splits)

lemma group_rows_parsed:
  assumes "\<forall>row\<in>set rows.
             (source row = ''CheXpert'' \<longrightarrow> re_search_digits ''patient'' (filename row) \<noteq> None)
           \<and> (source row = ''Radiopaedia'' \<longrightarrow> re_search_digits ''radiopaedia_'' (filename row) \<noteq> None)"
  shows "group_rows h1 pd rows = group_rows h2 pd rows"
  using assms
proof (induction rows arbitrary: pd)
  case Nil
  then show ?case by simp
next
  case (Cons row rows)
  have "extract_patient_id h1 (filename row) (source row)
          = extract_patient_id h2 (filename row) (source row)"
    using Cons.prems by (intro extract_patient_id_parsed) simp_all
  moreover have "group_rows h1 pd' rows = group_rows h2 pd' rows" for pd'
    using Cons.prems by (intro Cons.IH) simp
  ultimately show ?case by (simp split: sum.splits)
qed

lemma pipeline_reproducible_when_parsed:
  assumes "\<forall>row\<in>set (csv_rows csv).
             (source row = ''CheXpert'' \<longrightarrow> re_search_digits ''patient'' (filename row) \<noteq> None)
           \<and> (source row = ''Radiopaedia'' \<longrightarrow> re_search_digits ''radiopaedia_'' (filename row) \<noteq> None)"
  shows "run_full_pipeline sh seed_rng h1 fs csv seed out
           = run_full_pipeline sh seed_rng h2 fs csv seed out"
proof -
  have "group_by_patient h1 (csv_rows csv) = group_by_patient h2 (csv_rows csv)"
    unfolding group_by_patient_def using assms by (rule group_rows_parsed)
  then show ?thesis
    by (simp add: run_full_pipeline_def load_master_index_def split: sum.splits)
qed

text \<open>
  Claim C6 says that two runs on the same inventory with the same seed write the same
  \<open>patient_mapping\<close>, fallback identifiers included. A fallback identifier holds the
  built-in \<open>hash\<close> of the filename, which is salted anew in each process: the same
  inventory, seed and shuffle give two different mappings under two salts. When every
  filename matches its rule the run does not depend on the hash
  (\<open>pipeline_reproducible_when_parsed\<close>).
\<close>

theorem hash_fallback_not_reproducible:
  "patient_mapping (snd (run_full_pipeline rotate_shuffle seed_counter (\<lambda>f. 7) (\<lambda>p. None)
                           ten_chexpert_csv 42 no_files))
     = Some [(''chexpert_patient2'', ''train''), (''chexpert_patient3'', ''train''),
             (''chexpert_patient4'', ''train''), (''chexpert_patient5'', ''train''),
             (''chexpert_patient6'', ''train''), (''chexpert_patient7'', ''train''),
             (''chexpert_patient8'', ''train''), (''chexpert_unknown_7'', ''train''),
             (''chexpert_patient0'', ''val''), (''chexpert_patient1'', ''test'')]
   \<and> patient_mapping (snd (run_full_pipeline rotate_shuffle seed_counter (\<lambda>f. - 8) (\<lambda>p. None)
                           ten_chexpert_csv 42 no_files))
     = Some [(''chexpert_patient2'', ''train''), (''chexpert_patient3'', ''train''),
             (''chexpert_patient4'', ''train''), (''chexpert_patient5'', ''train''),
             (''chexpert_patient6'', ''train''), (''chexpert_patient7'', ''train''),
             (''chexpert_patient8'', ''train''), (''chexpert_unknown_-8'', ''train''),
             (''chexpert_patient0'', ''val''), (''chexpert_patient1'', ''test'')]"
  by code_simp

end
